theory Spec2Isabelle
  imports Main "HOL-Library.Sublist"
begin

section \<open>Python values shared by both scripts\<close>

text \<open>
  A character is a code point below 256, so the model covers Latin-1 text. \<open>lower\<close> folds
  the letters A to Z and the capitals U+00C0 to U+00DE (the multiplication sign U+00D7
  apart), as \<^verbatim>\<open>str.lower()\<close> does on that range; \<open>strip\<close> removes what \<^verbatim>\<open>str.strip()\<close>
  removes there: U+0009 to U+000D, U+001C to U+0020, U+0085 and U+00A0. Every raise of the
  source is a value \<open>Inl e\<close> of a sum type.
\<close>

datatype py_error =
  KeyError | TypeError | ValueError | AttributeError | IndexError | ExternalError

definition lower_char :: "char \<Rightarrow> char" where
  "lower_char c =
     (let n = (of_char c :: nat)
      in if (65 \<le> n \<and> n \<le> 90) \<or> (192 \<le> n \<and> n \<le> 222 \<and> n \<noteq> 215)
         then char_of (n + 32) else c)"

definition lower :: "string \<Rightarrow> string" where
  "lower s = map lower_char s"

text \<open>\<^verbatim>\<open>k in s\<close> on strings: \<open>k\<close> occurs in \<open>s\<close> as a contiguous block.\<close>

fun str_in :: "string \<Rightarrow> string \<Rightarrow> bool" where
  "str_in k [] = (k = [])"
| "str_in k (c # cs) = (prefix k (c # cs) \<or> str_in k cs)"

text \<open>\<^verbatim>\<open>any(keyword in s for keyword in kws)\<close>\<close>

definition any_keyword_in :: "string list \<Rightarrow> string \<Rightarrow> bool" where
  "any_keyword_in kws s = list_ex (\<lambda>keyword. str_in keyword s) kws"

definition is_space :: "char \<Rightarrow> bool" where
  "is_space c =
     (let n = (of_char c :: nat)
      in (9 \<le> n \<and> n \<le> 13) \<or> (28 \<le> n \<and> n \<le> 32) \<or> n = 133 \<or> n = 160)"

definition strip :: "string \<Rightarrow> string" where
  "strip s = rev (dropWhile is_space (rev (dropWhile is_space s)))"

text \<open>\<^verbatim>\<open>sep.join(parts)\<close>\<close>

fun join :: "string \<Rightarrow> string list \<Rightarrow> string" where
  "join sep [] = []"
| "join sep [p] = p"
| "join sep (p # q # ps) = p @ sep @ join sep (q # ps)"

section \<open>The question-answering service (virtual\_ta\_main.py)\<close>

subsection \<open>Data model\<close>

text \<open>
  A knowledge item is a Python dict from string keys to string values, kept as an
  association list and read through \<open>map_of\<close>.
\<close>

type_synonym item = "(string \<times> string) list"

text \<open>\<^verbatim>\<open>d.get(k, default)\<close> and \<^verbatim>\<open>d[k]\<close>\<close>

definition item_get :: "item \<Rightarrow> string \<Rightarrow> string \<Rightarrow> string" where
  "item_get d k dflt = (case map_of d k of Some v \<Rightarrow> v | None \<Rightarrow> dflt)"

definition item_index :: "item \<Rightarrow> string \<Rightarrow> py_error + string" where
  "item_index d k = (case map_of d k of Some v \<Rightarrow> Inr v | None \<Rightarrow> Inl KeyError)"

record knowledge_base =
  course_content :: "item list"
  discourse_posts :: "item list"

record question_request =
  question :: string
  image_data :: "string option"

record link_response =
  link_url :: string
  link_text :: string

record answer_response =
  answer :: string
  links :: "link_response list"


definition TDS_KNOWLEDGE_BASE :: knowledge_base where
  "TDS_KNOWLEDGE_BASE = \<lparr>
     course_content = [
       [(''topic'', ''AI Models and APIs''),
        (''content'', ''For TDS assignments, you must use gpt-3.5-turbo-0125 model specifically, even if AI Proxy supports other models like gpt-4o-mini. Use OpenAI API directly when required.''),
        (''source'', ''Course Guidelines'')],
       [(''topic'', ''Data Collection''),
        (''content'', ''Web scraping should be done ethically with proper rate limiting. Use libraries like requests, BeautifulSoup, and selenium when needed.''),
        (''source'', ''Week 3 Materials'')],
       [(''topic'', ''API Development''),
        (''content'', ''FastAPI is recommended for building REST APIs. Ensure proper error handling and response formatting.''),
        (''source'', ''Week 5 Materials'')]],
     discourse_posts = [
       [(''url'', ''https://discourse.onlinedegree.iitm.ac.in/t/ga5-question-8-clarification/155939/4''),
        (''title'', ''GA5 Question 8 Clarification''),
        (''content'', ''Use the model that'' @ [CHR 0x27] @ ''s mentioned in the question. For token counting, use the specified model'' @ [CHR 0x27] @ ''s tokenizer.''),
        (''date'', ''2025-04-10'')],
       [(''url'', ''https://discourse.onlinedegree.iitm.ac.in/t/api-best-practices/155940/2''),
        (''title'', ''API Best Practices''),
        (''content'', ''Always implement proper error handling and return appropriate HTTP status codes.''),
        (''date'', ''2025-04-08'')]] \<rparr>"

subsection \<open>search\_knowledge\_base\<close>

definition course_keywords :: "string list" where
  "course_keywords = [''api'', ''model'', ''gpt'', ''openai'', ''scraping'', ''fastapi'']"

definition discourse_question_keywords :: "string list" where
  "discourse_question_keywords = [''question'', ''clarification'', ''api'', ''model'']"

definition discourse_content_keywords :: "string list" where
  "discourse_content_keywords = [''model'', ''api'', ''token'', ''question'']"

text \<open>
  The two \<^verbatim>\<open>for\<close> loops, with \<open>relevant_items\<close> as the accumulator. The inner
  \<^verbatim>\<open>item["content"]\<close> is evaluated only when the question-side test holds, and raises
  \<open>KeyError\<close> when the key is absent.
\<close>

fun search_course :: "string \<Rightarrow> item list \<Rightarrow> item list \<Rightarrow> py_error + item list" where
  "search_course question_lower [] relevant_items = Inr relevant_items"
| "search_course question_lower (item # rest) relevant_items =
     (if any_keyword_in course_keywords question_lower then
        (case item_index item ''content'' of
           Inl e \<Rightarrow> Inl e
         | Inr c \<Rightarrow>
             if any_keyword_in course_keywords (lower c)
             then search_course question_lower rest (relevant_items @ [item])
             else search_course question_lower rest relevant_items)
      else search_course question_lower rest relevant_items)"

fun search_discourse :: "string \<Rightarrow> item list \<Rightarrow> item list \<Rightarrow> py_error + item list" where
  "search_discourse question_lower [] relevant_items = Inr relevant_items"
| "search_discourse question_lower (post # rest) relevant_items =
     (if any_keyword_in discourse_question_keywords question_lower then
        (case item_index post ''content'' of
           Inl e \<Rightarrow> Inl e
         | Inr c \<Rightarrow>
             if any_keyword_in discourse_content_keywords (lower c)
             then search_discourse question_lower rest (relevant_items @ [post])
             else search_discourse question_lower rest relevant_items)
      else search_discourse question_lower rest relevant_items)"

definition search_kb :: "knowledge_base \<Rightarrow> string \<Rightarrow> py_error + item list" where
  "search_kb kb q =
     (let question_lower = lower q in
      case search_course question_lower (course_content kb) [] of
        Inl e \<Rightarrow> Inl e
      | Inr relevant_items \<Rightarrow> search_discourse question_lower (discourse_posts kb) relevant_items)"

definition search_knowledge_base :: "string \<Rightarrow> py_error + item list" where
  "search_knowledge_base q = search_kb TDS_KNOWLEDGE_BASE q"

text \<open>
  One call as a step on the process state. The only state the function touches is the
  module-level store, which it reads and never assigns.
\<close>

definition search_knowledge_base_call ::
  "knowledge_base \<Rightarrow> string \<Rightarrow> (py_error + item list) \<times> knowledge_base" where
  "search_knowledge_base_call store q = (search_kb store q, store)"

text \<open>The two tests of each loop, as predicates on an item.\<close>

definition course_match :: "string \<Rightarrow> item \<Rightarrow> bool" where
  "course_match question_lower item =
     (any_keyword_in course_keywords question_lower \<and>
      any_keyword_in course_keywords (lower (item_get item ''content'' [])))"

definition discourse_match :: "string \<Rightarrow> item \<Rightarrow> bool" where
  "discourse_match question_lower post =
     (any_keyword_in discourse_question_keywords question_lower \<and>
      any_keyword_in discourse_content_keywords (lower (item_get post ''content'' [])))"

subsection \<open>generate\_answer\<close>

text \<open>
  The external completion call is a parameter: given the prompt it either raises or returns
  the message contents of the response's choices (\<open>None\<close> for a null content). The model
  name, the system message, the token cap and the temperature are constants of the call.
\<close>

type_synonym chat_completion = "string \<Rightarrow> py_error + string option list"

definition build_prompt :: "string \<Rightarrow> string \<Rightarrow> string option \<Rightarrow> string" where
  "build_prompt q context image_description =
     ''You are a Teaching Assistant for the Tools in Data Science (TDS) course at IIT Madras.''
     @ [CHR 0x0A] @ ''        '' @ [CHR 0x0A]
     @ ''Question: '' @ q @ [CHR 0x0A, CHR 0x0A]
     @ ''Context from course materials and discourse:'' @ [CHR 0x0A]
     @ context @ [CHR 0x0A, CHR 0x0A]
     @ (case image_description of
          None \<Rightarrow> []
        | Some d \<Rightarrow> if d = [] then [] else ''Image description: '' @ d)
     @ [CHR 0x0A, CHR 0x0A]
     @ ''Provide a helpful, accurate answer based on the TDS course content. Be specific and practical.''"

definition context_of :: "item list \<Rightarrow> string" where
  "context_of relevant_items =
     join [CHR 0x0A] (map (\<lambda>item. item_get item ''content'' []) relevant_items)"

definition apology :: string where
  "apology = ''I apologize, but I'' @ [CHR 0x27] @ ''m having trouble accessing the course information right now. Please check the course materials or post your question on Discourse.''"

definition fallback_answer :: "item list \<Rightarrow> string" where
  "fallback_answer relevant_items =
     (case relevant_items of
        [] \<Rightarrow> apology
      | item # _ \<Rightarrow>
          ''Based on course materials: ''
          @ item_get item ''content'' ''Please refer to course materials for detailed information.'')"

text \<open>
  The \<^verbatim>\<open>try\<close> block: the call, then \<^verbatim>\<open>response.choices[0].message.content.strip()\<close>,
  which raises on an empty choice list and on a null content.
\<close>

definition model_answer :: "chat_completion \<Rightarrow> string \<Rightarrow> py_error + string" where
  "model_answer llm prompt =
     (case llm prompt of
        Inl e \<Rightarrow> Inl e
      | Inr choices \<Rightarrow>
          (case choices of
             [] \<Rightarrow> Inl IndexError
           | c # _ \<Rightarrow> (case c of None \<Rightarrow> Inl AttributeError | Some content \<Rightarrow> Inr (strip content))))"

definition generate_answer ::
  "chat_completion \<Rightarrow> string \<Rightarrow> item list \<Rightarrow> string option \<Rightarrow> py_error + string" where
  "generate_answer llm q relevant_items image_description =
     (case model_answer llm (build_prompt q (context_of relevant_items) image_description) of
        Inr a \<Rightarrow> Inr a
      | Inl e \<Rightarrow> Inr (fallback_answer relevant_items))"

subsection \<open>get\_relevant\_links\<close>

definition default_link :: link_response where
  "default_link =
     \<lparr> link_url = ''https://discourse.onlinedegree.iitm.ac.in/c/degree-programs/tools-in-data-science/123'',
       link_text = ''TDS Course Discourse Forum'' \<rparr>"

definition link_of :: "item \<Rightarrow> link_response" where
  "link_of item =
     \<lparr> link_url = item_get item ''url'' [],
       link_text = item_get item ''title'' (take 100 (item_get item ''content'' [])) \<rparr>"

fun collect_links :: "item list \<Rightarrow> link_response list \<Rightarrow> link_response list" where
  "collect_links [] found = found"
| "collect_links (item # rest) found =
     (case map_of item ''url'' of
        None \<Rightarrow> collect_links rest found
      | Some u \<Rightarrow>
          collect_links rest
            (found @ [\<lparr> link_url = u,
                        link_text = item_get item ''title'' (take 100 (item_get item ''content'' [])) \<rparr>]))"

definition get_relevant_links :: "item list \<Rightarrow> link_response list" where
  "get_relevant_links relevant_items =
     (let found = collect_links relevant_items [];
          found = (if found = [] then found @ [default_link] else found)
      in take 3 found)"

subsection \<open>process\_image and the handler\<close>




text \<open>Two external models used as concrete inputs: one whose call fails, one that answers blanks.\<close>

definition failing_model :: chat_completion where
  "failing_model prompt = Inl ExternalError"



section \<open>The forum scraper (scraper.py)\<close>

subsection \<open>JSON values\<close>

text \<open>
  What \<^verbatim>\<open>response.json()\<close> returns. A JSON object is a Python dict, kept as an association
  list read through \<open>map_of\<close>; numbers are integers.
\<close>

datatype json =
  JNull | JBool bool | JNum int | JStr string | JArr "json list" | JObj "(string \<times> json) list"

text \<open>Python's truth value of a value, as \<^verbatim>\<open>if not x\<close> tests it.\<close>

fun truthy :: "json \<Rightarrow> bool" where
  "truthy JNull = False"
| "truthy (JBool b) = b"
| "truthy (JNum n) = (n \<noteq> 0)"
| "truthy (JStr s) = (s \<noteq> [])"
| "truthy (JArr xs) = (xs \<noteq> [])"
| "truthy (JObj kvs) = (kvs \<noteq> [])"

text \<open>
  \<^verbatim>\<open>d.get(k, default)\<close>: only a dict has the method. \<^verbatim>\<open>d[k]\<close> with a string key: a dict
  without the key raises \<open>KeyError\<close>, every other value raises \<open>TypeError\<close>.
\<close>

fun json_get :: "json \<Rightarrow> string \<Rightarrow> json \<Rightarrow> py_error + json" where
  "json_get (JObj kvs) k dflt = (case map_of kvs k of Some v \<Rightarrow> Inr v | None \<Rightarrow> Inr dflt)"
| "json_get _ k dflt = Inl AttributeError"

fun json_index :: "json \<Rightarrow> string \<Rightarrow> py_error + json" where
  "json_index (JObj kvs) k = (case map_of kvs k of Some v \<Rightarrow> Inr v | None \<Rightarrow> Inl KeyError)"
| "json_index _ k = Inl TypeError"

subsection \<open>Dates\<close>

text \<open>
  \<^verbatim>\<open>datetime.strptime(s, "%Y-%m-%d")\<close> gives midnight of a calendar day, so the result is
  the triple of year, month and day, and \<^verbatim>\<open><=\<close> on two results is the order of the
  triples. The format wants four digits, a dash, a month written 1[0-2], 0[1-9] or [1-9], a
  dash, and a day written 3[0-1], [1-2][0-9], 0[1-9], [1-9] or a blank and [1-9], with nothing
  left over; the day must exist in that month of that year, and the year 0 does not exist.
\<close>

type_synonym date = "nat \<times> nat \<times> nat"

definition date_le :: "date \<Rightarrow> date \<Rightarrow> bool" where
  "date_le a b =
     (case a of (y1, m1, d1) \<Rightarrow> case b of (y2, m2, d2) \<Rightarrow>
        y1 < y2 \<or> (y1 = y2 \<and> (m1 < m2 \<or> (m1 = m2 \<and> d1 \<le> d2))))"

definition is_digit :: "char \<Rightarrow> bool" where
  "is_digit c = (48 \<le> (of_char c :: nat) \<and> (of_char c :: nat) \<le> 57)"

definition digit_val :: "char \<Rightarrow> nat" where
  "digit_val c = of_char c - 48"

fun month_of :: "string \<Rightarrow> nat option" where
  "month_of [a] = (if is_digit a \<and> a \<noteq> CHR ''0'' then Some (digit_val a) else None)"
| "month_of [a, b] =
     (if a = CHR ''1'' \<and> is_digit b \<and> digit_val b \<le> 2 then Some (10 + digit_val b)
      else if a = CHR ''0'' \<and> is_digit b \<and> b \<noteq> CHR ''0'' then Some (digit_val b)
      else None)"
| "month_of _ = None"

fun day_of :: "string \<Rightarrow> nat option" where
  "day_of [a] = (if is_digit a \<and> a \<noteq> CHR ''0'' then Some (digit_val a) else None)"
| "day_of [a, b] =
     (if a = CHR ''3'' \<and> is_digit b \<and> digit_val b \<le> 1 then Some (30 + digit_val b)
      else if (a = CHR ''1'' \<or> a = CHR ''2'') \<and> is_digit b then Some (10 * digit_val a + digit_val b)
      else if (a = CHR ''0'' \<or> a = CHR '' '') \<and> is_digit b \<and> b \<noteq> CHR ''0'' then Some (digit_val b)
      else None)"
| "day_of _ = None"

definition year_of :: "string \<Rightarrow> nat option" where
  "year_of s =
     (if length s = 4 \<and> list_all is_digit s
      then Some (foldl (\<lambda>n c. 10 * n + digit_val c) 0 s) else None)"

definition leap_year :: "nat \<Rightarrow> bool" where
  "leap_year y = (y mod 4 = 0 \<and> (y mod 100 \<noteq> 0 \<or> y mod 400 = 0))"

definition days_in_month :: "nat \<Rightarrow> nat \<Rightarrow> nat" where
  "days_in_month y m =
     (if m = 2 then (if leap_year y then 29 else 28)
      else if m = 4 \<or> m = 6 \<or> m = 9 \<or> m = 11 then 30 else 31)"

definition strptime_ymd :: "string \<Rightarrow> py_error + date" where
  "strptime_ymd s =
     (let rest = drop 4 s;
          m_str = takeWhile (\<lambda>c. c \<noteq> CHR ''-'') (drop 1 rest);
          d_part = dropWhile (\<lambda>c. c \<noteq> CHR ''-'') (drop 1 rest)
      in if take 1 rest = ''-'' \<and> take 1 d_part = ''-'' then
           (case (year_of (take 4 s), month_of m_str, day_of (drop 1 d_part)) of
              (Some y, Some m, Some d) \<Rightarrow>
                if 1 \<le> y \<and> d \<le> days_in_month y m then Inr (y, m, d) else Inl ValueError
            | _ \<Rightarrow> Inl ValueError)
         else Inl ValueError)"

subsection \<open>clean\_html\<close>

text \<open>
  The parsed document is a forest. A \<open>Text\<close> node is a string that \<^verbatim>\<open>get_text()\<close> yields
  (an ordinary string or a CDATA section); a \<open>Special\<close> node is a string of any other class
  (a comment, a declaration, a processing instruction, the content of a script, style or
  template element, a ruby annotation), which \<^verbatim>\<open>get_text()\<close> leaves out. The parser itself
  is a library call and a parameter of the model: applied to the (truthy) value it is given,
  it raises or returns a forest. White space that the parser squeezes is already squeezed in
  the forest.
\<close>

datatype node = Text string | Special string | Element string "node list"

type_synonym markup_parser = "json \<Rightarrow> py_error + node list"

text \<open>
  \<^verbatim>\<open>for element in soup([...]): element.decompose()\<close> removes every element with one of the
  names, with all it contains; \<^verbatim>\<open>get_text()\<close> joins the remaining \<open>Text\<close> nodes in
  document order, with no separator.
\<close>

fun decompose :: "string list \<Rightarrow> node list \<Rightarrow> node list" where
  "decompose names [] = []"
| "decompose names (Text t # ns) = Text t # decompose names ns"
| "decompose names (Special t # ns) = Special t # decompose names ns"
| "decompose names (Element tag kids # ns) =
     (if tag \<in> set names then decompose names ns
      else Element tag (decompose names kids) # decompose names ns)"

fun get_text :: "node list \<Rightarrow> string" where
  "get_text [] = []"
| "get_text (Text t # ns) = t @ get_text ns"
| "get_text (Special t # ns) = get_text ns"
| "get_text (Element tag kids # ns) = get_text kids @ get_text ns"

definition removed_tags :: "string list" where
  "removed_tags = [''code'', ''pre'', ''blockquote'']"

definition clean_html :: "markup_parser \<Rightarrow> json \<Rightarrow> py_error + string" where
  "clean_html beautiful_soup html_content =
     (if \<not> truthy html_content then Inr []
      else case beautiful_soup html_content of
             Inl e \<Rightarrow> Inl e
           | Inr soup \<Rightarrow> Inr (strip (get_text (decompose removed_tags soup))))"

text \<open>
  The \<open>Text\<close> nodes of a forest, each with the names of the elements around it (innermost
  first), and the names of all its elements.
\<close>

fun text_paths :: "string list \<Rightarrow> node list \<Rightarrow> (string list \<times> string) list" where
  "text_paths anc [] = []"
| "text_paths anc (Text t # ns) = (anc, t) # text_paths anc ns"
| "text_paths anc (Special t # ns) = text_paths anc ns"
| "text_paths anc (Element tag kids # ns) = text_paths (tag # anc) kids @ text_paths anc ns"

fun element_names :: "node list \<Rightarrow> string list" where
  "element_names [] = []"
| "element_names (Text t # ns) = element_names ns"
| "element_names (Special t # ns) = element_names ns"
| "element_names (Element tag kids # ns) = tag # element_names kids @ element_names ns"

subsection \<open>The parser on plain fragments\<close>

text \<open>
  What the library's parser returns is modelled for plain fragments only, to run
  \<open>clean_html\<close> on concrete markup. A plain fragment is made of text without \<^verbatim>\<open><\<close>,
  \<^verbatim>\<open>>\<close> and \<^verbatim>\<open>&\<close>, of start tags \<^verbatim>\<open><name>\<close> and of end tags \<^verbatim>\<open></name>\<close>, where the name is
  one of \<open>plain_tags\<close> in any case: no attributes, no character references, no comments or
  declarations, no void elements, and no element whose content the parser treats apart.
  On anything else \<open>tokenize\<close> and \<open>parse_fragment\<close> answer \<open>None\<close>.

  On a plain fragment the parser lower-cases the names; an end tag closes the open elements
  up to the innermost one of its name and is dropped when there is none; elements still
  open at the end are closed there. The text between two tags is one node; when it consists
  of the blanks U+0020, U+000A, U+0009, U+000C, U+000D only and no \<open>pre\<close> or \<open>textarea\<close>
  element is open, it is replaced by one line feed if it holds a line feed and by one space
  if not.
\<close>

datatype token = TText string | TOpen string | TClose string

definition is_letter :: "char \<Rightarrow> bool" where
  "is_letter c = (let n = (of_char c :: nat) in (65 \<le> n \<and> n \<le> 90) \<or> (97 \<le> n \<and> n \<le> 122))"

definition plain_tags :: "string list" where
  "plain_tags = [''p'', ''div'', ''span'', ''b'', ''i'', ''em'', ''strong'', ''u'', ''ul'', ''ol'',
                 ''li'', ''code'', ''pre'', ''blockquote'']"

definition plain_name :: "string \<Rightarrow> bool" where
  "plain_name s = (list_all is_letter s \<and> lower s \<in> set plain_tags)"

definition tag_token :: "string \<Rightarrow> token option" where
  "tag_token inner =
     (case inner of
        [] \<Rightarrow> None
      | a # rest \<Rightarrow>
          if a = CHR ''/'' then (if plain_name rest then Some (TClose (lower rest)) else None)
          else if plain_name inner then Some (TOpen (lower inner))
          else None)"

definition flush :: "string \<Rightarrow> token list" where
  "flush pending = (if pending = [] then [] else [TText pending])"

function tokenize :: "string \<Rightarrow> string \<Rightarrow> token list option" where
  "tokenize pending [] = Some (flush pending)"
| "tokenize pending (c # cs) =
     (if c = CHR ''<'' then
        (if CHR ''>'' \<in> set cs then
           (case tag_token (takeWhile (\<lambda>x. x \<noteq> CHR ''>'') cs) of
              None \<Rightarrow> None
            | Some tok \<Rightarrow>
                (case tokenize [] (drop 1 (dropWhile (\<lambda>x. x \<noteq> CHR ''>'') cs)) of
                   None \<Rightarrow> None
                 | Some toks \<Rightarrow> Some (flush pending @ tok # toks)))
         else None)
      else if c = CHR ''>'' \<or> c = CHR ''&'' then None
      else tokenize (pending @ [c]) cs)"
  by pat_completeness auto
termination
  by (relation "measure (\<lambda>(pending, s). length s)")
     (auto simp: le_imp_less_Suc length_dropWhile_le diff_le_mono2 less_Suc_eq_le
           intro: le_trans [OF diff_le_self length_dropWhile_le])

definition ascii_spaces :: "char list" where
  "ascii_spaces = [CHR 0x20, CHR 0x0A, CHR 0x09, CHR 0x0C, CHR 0x0D]"

definition preserve_whitespace_tags :: "string list" where
  "preserve_whitespace_tags = [''pre'', ''textarea'']"

definition squeeze :: "string list \<Rightarrow> string \<Rightarrow> string" where
  "squeeze open_names t =
     (if list_all (\<lambda>c. c \<in> set ascii_spaces) t
         \<and> \<not> list_ex (\<lambda>n. n \<in> set preserve_whitespace_tags) open_names
      then (if CHR 0x0A \<in> set t then [CHR 0x0A] else '' '')
      else t)"

text \<open>
  The open elements, innermost first, each with the children its parent had collected
  (latest first) when it was opened.
\<close>

type_synonym frame = "string \<times> node list"

fun close_tag :: "string \<Rightarrow> frame list \<Rightarrow> node list \<Rightarrow> frame list \<times> node list" where
  "close_tag name [] cur = ([], cur)"
| "close_tag name ((tag, siblings) # stack) cur =
     (if tag = name then (stack, Element tag (rev cur) # siblings)
      else close_tag name stack (Element tag (rev cur) # siblings))"

fun build_tree :: "token list \<Rightarrow> frame list \<Rightarrow> node list \<Rightarrow> node list" where
  "build_tree [] [] cur = rev cur"
| "build_tree [] ((tag, siblings) # stack) cur =
     build_tree [] stack (Element tag (rev cur) # siblings)"
| "build_tree (TText t # ts) stack cur =
     build_tree ts stack (Text (squeeze (map fst stack) t) # cur)"
| "build_tree (TOpen tag # ts) stack cur = build_tree ts ((tag, cur) # stack) []"
| "build_tree (TClose name # ts) stack cur =
     (if name \<in> set (map fst stack)
      then (case close_tag name stack cur of (stack', cur') \<Rightarrow> build_tree ts stack' cur')
      else build_tree ts stack cur)"

definition parse_fragment :: "string \<Rightarrow> node list option" where
  "parse_fragment s = map_option (\<lambda>toks. build_tree toks [] []) (tokenize [] s)"

text \<open>
  The parser as far as it is modelled: on a string that is a plain fragment it returns the
  forest above; what the library does with any other value is left unspecified.
\<close>

definition fragment_parser :: markup_parser where
  "fragment_parser v =
     (case v of
        JStr s \<Rightarrow> (case parse_fragment s of Some soup \<Rightarrow> Inr soup | None \<Rightarrow> undefined)
      | _ \<Rightarrow> undefined)"

subsection \<open>The forum, and the records scraped from it\<close>

text \<open>
  Every \<^verbatim>\<open>session.get\<close> is one request to the forum: a listing page of a category or the
  detail of a topic. The forum is a parameter: what it answers may depend on the request and
  on how many requests came before; a request may raise. The requests made so far are kept
  in a log, which is the only state the scraper threads. A body that is not JSON is \<open>None\<close>,
  and \<^verbatim>\<open>response.json()\<close> raises on it. The pause between topics changes nothing here.
\<close>

datatype request = ListingPage int nat | TopicDetail json

record response =
  status_code :: int
  body :: "json option"

type_synonym forum = "nat \<Rightarrow> request \<Rightarrow> py_error + response"

record scraper_env =
  base_url :: string
  session_get :: forum
  beautiful_soup :: markup_parser
  str_of :: "json \<Rightarrow> string"

record reply =
  r_content :: string
  r_author :: json
  r_created_at :: json

record post_data =
  p_id :: json
  p_title :: json
  p_url :: string
  p_content :: string
  p_created_at :: json
  p_author :: json
  p_replies :: "reply list"

definition response_json :: "response \<Rightarrow> py_error + json" where
  "response_json r = (case body r of None \<Rightarrow> Inl ValueError | Some data \<Rightarrow> Inr data)"

subsection \<open>scrape\_topic\_details\<close>

text \<open>
  The three lookups made on a post, for a reply and for the topic body alike:
  \<^verbatim>\<open>post.get('cooked', '')\<close> passed through \<open>clean_html\<close>, \<^verbatim>\<open>post.get('username', '')\<close>
  and \<^verbatim>\<open>post.get('created_at', '')\<close>. Only a dict has \<^verbatim>\<open>get\<close>, so once the first lookup
  has succeeded the other two cannot raise and their order does not matter. The field
  \<open>str_of\<close> of the environment is Python's \<^verbatim>\<open>str\<close>, which the f-string of the URL applies
  to the topic id.
\<close>

definition make_reply :: "markup_parser \<Rightarrow> json \<Rightarrow> py_error + reply" where
  "make_reply bs post =
     (case json_get post ''cooked'' (JStr []) of
        Inl e \<Rightarrow> Inl e
      | Inr cooked \<Rightarrow>
          (case clean_html bs cooked of
             Inl e \<Rightarrow> Inl e
           | Inr c \<Rightarrow>
               (case json_get post ''username'' (JStr []) of
                  Inl e \<Rightarrow> Inl e
                | Inr a \<Rightarrow>
                    (case json_get post ''created_at'' (JStr []) of
                       Inl e \<Rightarrow> Inl e
                     | Inr t \<Rightarrow> Inr \<lparr> r_content = c, r_author = a, r_created_at = t \<rparr>))))"

text \<open>The loop over \<^verbatim>\<open>posts[1:5]\<close>, appending to \<^verbatim>\<open>post_data['replies']\<close>.\<close>

fun collect_replies :: "markup_parser \<Rightarrow> json list \<Rightarrow> reply list \<Rightarrow> py_error + reply list" where
  "collect_replies bs [] acc = Inr acc"
| "collect_replies bs (post # rest) acc =
     (case make_reply bs post of
        Inl e \<Rightarrow> Inl e
      | Inr r \<Rightarrow> collect_replies bs rest (acc @ [r]))"

definition stream_posts :: "json \<Rightarrow> py_error + json" where
  "stream_posts data =
     (case json_get data ''post_stream'' (JObj []) of
        Inl e \<Rightarrow> Inl e
      | Inr stream \<Rightarrow> json_get stream ''posts'' (JArr []))"

text \<open>
  The body of the \<^verbatim>\<open>try\<close> block once the response is parsed. \<open>Inr None\<close> is the
  \<^verbatim>\<open>return None\<close> for an empty post stream. Indexing a truthy value that is not a list
  with 0 gives a character (which has no \<^verbatim>\<open>get\<close>) or raises.
\<close>

definition topic_post_data :: "scraper_env \<Rightarrow> json \<Rightarrow> json \<Rightarrow> py_error + post_data option" where
  "topic_post_data env topic_id data =
     (case stream_posts data of
        Inl e \<Rightarrow> Inl e
      | Inr posts \<Rightarrow>
          if \<not> truthy posts then Inr None
          else
            (case posts of
               JArr (main_post # others) \<Rightarrow>
                 (case json_get data ''title'' (JStr []) of
                    Inl e \<Rightarrow> Inl e
                  | Inr ttl \<Rightarrow>
                      (case make_reply (beautiful_soup env) main_post of
                         Inl e \<Rightarrow> Inl e
                       | Inr main \<Rightarrow>
                           (case collect_replies (beautiful_soup env) (take 4 others) [] of
                              Inl e \<Rightarrow> Inl e
                            | Inr rs \<Rightarrow>
                                Inr (Some \<lparr> p_id = topic_id,
                                             p_title = ttl,
                                             p_url = base_url env @ ''/t/'' @ str_of env topic_id,
                                             p_content = r_content main,
                                             p_created_at = r_created_at main,
                                             p_author = r_author main,
                                             p_replies = rs \<rparr>))))
             | JStr s \<Rightarrow> Inl AttributeError
             | JObj kvs \<Rightarrow> Inl KeyError
             | _ \<Rightarrow> Inl TypeError))"

definition scrape_topic_details ::
  "scraper_env \<Rightarrow> json \<Rightarrow> request list \<Rightarrow> post_data option \<times> request list" where
  "scrape_topic_details env topic_id log =
     (let log' = log @ [TopicDetail topic_id] in
      case session_get env (length log) (TopicDetail topic_id) of
        Inl e \<Rightarrow> (None, log')
      | Inr r \<Rightarrow>
          if status_code r \<noteq> 200 then (None, log')
          else
            (case response_json r of
               Inl e \<Rightarrow> (None, log')
             | Inr data \<Rightarrow>
                 (case topic_post_data env topic_id data of
                    Inl e \<Rightarrow> (None, log')
                  | Inr result \<Rightarrow> (result, log'))))"

subsection \<open>scrape\_discourse\_posts\<close>

definition topic_created_at :: "json \<Rightarrow> py_error + date" where
  "topic_created_at topic =
     (case json_index topic ''created_at'' of
        Inl e \<Rightarrow> Inl e
      | Inr v \<Rightarrow> (case v of JStr s \<Rightarrow> strptime_ymd (take 10 s) | _ \<Rightarrow> Inl TypeError))"

definition listing_topics :: "json \<Rightarrow> py_error + json" where
  "listing_topics data =
     (case json_get data ''topic_list'' (JObj []) of
        Inl e \<Rightarrow> Inl e
      | Inr topic_list \<Rightarrow> json_get topic_list ''topics'' (JArr []))"

text \<open>The loop over the topics of one page. An error leaves the loop at once.\<close>

fun topics_loop ::
  "scraper_env \<Rightarrow> date \<Rightarrow> date \<Rightarrow> json list \<Rightarrow> post_data list \<Rightarrow> request list
   \<Rightarrow> (py_error + post_data list) \<times> request list" where
  "topics_loop env start_dt end_dt [] posts log = (Inr posts, log)"
| "topics_loop env start_dt end_dt (topic # rest) posts log =
     (case topic_created_at topic of
        Inl e \<Rightarrow> (Inl e, log)
      | Inr created \<Rightarrow>
          if date_le start_dt created \<and> date_le created end_dt then
            (case json_index topic ''id'' of
               Inl e \<Rightarrow> (Inl e, log)
             | Inr topic_id \<Rightarrow>
                 (case scrape_topic_details env topic_id log of
                    (None, log') \<Rightarrow> topics_loop env start_dt end_dt rest posts log'
                  | (Some post, log') \<Rightarrow> topics_loop env start_dt end_dt rest (posts @ [post]) log'))
          else topics_loop env start_dt end_dt rest posts log)"

text \<open>
  The \<^verbatim>\<open>while page < 10\<close> loop. A status other than 200 and an empty topic list are the
  two \<^verbatim>\<open>break\<close>s. Iterating a truthy value that is not a list raises at its first step.
\<close>

function pages_loop ::
  "scraper_env \<Rightarrow> date \<Rightarrow> date \<Rightarrow> int \<Rightarrow> nat \<Rightarrow> post_data list \<Rightarrow> request list
   \<Rightarrow> (py_error + post_data list) \<times> request list" where
  "pages_loop env start_dt end_dt category_id page posts log =
     (if page < 10 then
        (let log1 = log @ [ListingPage category_id page] in
         case session_get env (length log) (ListingPage category_id page) of
           Inl e \<Rightarrow> (Inl e, log1)
         | Inr r \<Rightarrow>
             if status_code r \<noteq> 200 then (Inr posts, log1)
             else
               (case response_json r of
                  Inl e \<Rightarrow> (Inl e, log1)
                | Inr data \<Rightarrow>
                    (case listing_topics data of
                       Inl e \<Rightarrow> (Inl e, log1)
                     | Inr topics \<Rightarrow>
                         if \<not> truthy topics then (Inr posts, log1)
                         else
                           (case topics of
                              JArr ts \<Rightarrow>
                                (case topics_loop env start_dt end_dt ts posts log1 of
                                   (Inl e, log2) \<Rightarrow> (Inl e, log2)
                                 | (Inr posts', log2) \<Rightarrow>
                                     pages_loop env start_dt end_dt category_id (page + 1) posts' log2)
                            | _ \<Rightarrow> (Inl TypeError, log1)))))
      else (Inr posts, log))"
  by pat_completeness auto
termination
  by (relation "measure (\<lambda>(env, start_dt, end_dt, category_id, page, posts, log). 10 - page)") auto

text \<open>The whole function: whatever is raised inside the \<^verbatim>\<open>try\<close> gives the empty list.\<close>

definition scrape_discourse_posts ::
  "scraper_env \<Rightarrow> string \<Rightarrow> string \<Rightarrow> int \<Rightarrow> request list \<Rightarrow> post_data list \<times> request list" where
  "scrape_discourse_posts env start_date end_date category_id log =
     (case strptime_ymd start_date of
        Inl e \<Rightarrow> ([], log)
      | Inr start_dt \<Rightarrow>
          (case strptime_ymd end_date of
             Inl e \<Rightarrow> ([], log)
           | Inr end_dt \<Rightarrow>
               (case pages_loop env start_dt end_dt category_id 0 [] log of
                  (Inl e, log') \<Rightarrow> ([], log')
                | (Inr posts, log') \<Rightarrow> (posts, log'))))"

definition is_listing :: "request \<Rightarrow> bool" where
  "is_listing rq = (case rq of ListingPage c p \<Rightarrow> True | TopicDetail i \<Rightarrow> False)"

subsection \<open>A concrete forum\<close>

text \<open>
  Python's \<^verbatim>\<open>str\<close> on the scalars that occur as topic ids.
\<close>

function decimal :: "nat \<Rightarrow> string" where
  "decimal n = (if n < 10 then [char_of (48 + n)] else decimal (n div 10) @ [char_of (48 + n mod 10)])"
  by pat_completeness auto
termination
  by (relation "measure id") auto

definition str_of_scalar :: "json \<Rightarrow> string" where
  "str_of_scalar v =
     (case v of
        JNum n \<Rightarrow> if n < 0 then ''-'' @ decimal (nat (- n)) else decimal (nat n)
      | JStr s \<Rightarrow> s
      | JBool b \<Rightarrow> if b then ''True'' else ''False''
      | JNull \<Rightarrow> ''None''
      | _ \<Rightarrow> [])"

definition forum_post :: "string \<Rightarrow> string \<Rightarrow> string \<Rightarrow> json" where
  "forum_post cooked username created =
     JObj [(''cooked'', JStr cooked), (''username'', JStr username), (''created_at'', JStr created)]"

text \<open>
  Topic 1 was split off an older thread: the listing dates it 2025-02-01, its first post is
  from 2020. It has seven posts.
\<close>

definition example_detail :: json where
  "example_detail =
     JObj [(''title'', JStr ''Project deadline''),
           (''post_stream'', JObj [(''posts'', JArr [
              forum_post ''<p>When is the <code>deadline</code>?</p>'' ''asha'' ''2020-01-01T08:00:00.000Z'',
              forum_post ''<p>one</p>'' ''ben'' ''2025-02-01T09:00:00.000Z'',
              forum_post ''<p>two</p>'' ''chen'' ''2025-02-01T10:00:00.000Z'',
              forum_post ''<p>three</p>'' ''dev'' ''2025-02-02T10:00:00.000Z'',
              forum_post ''<p>four</p>'' ''eli'' ''2025-02-03T10:00:00.000Z'',
              forum_post ''<p>five</p>'' ''fay'' ''2025-02-04T10:00:00.000Z'',
              forum_post ''<p>six</p>'' ''gus'' ''2025-02-05T10:00:00.000Z''])])]"

definition listing_of :: "json list \<Rightarrow> json" where
  "listing_of topics = JObj [(''topic_list'', JObj [(''topics'', JArr topics)])]"

definition listed_topic :: "int \<Rightarrow> string \<Rightarrow> json" where
  "listed_topic i created = JObj [(''id'', JNum i), (''created_at'', JStr created)]"

text \<open>
  A forum whose first listing page holds the given topics and whose later pages are empty.
  Only topic 1 has a detail page; topic 3 answers with status 404 and a body that is not
  JSON.
\<close>

definition forum_with :: "json list \<Rightarrow> forum" where
  "forum_with topics n rq =
     (case rq of
        ListingPage c p \<Rightarrow>
          Inr \<lparr> status_code = 200, body = Some (listing_of (if p = 0 then topics else [])) \<rparr>
      | TopicDetail i \<Rightarrow>
          if i = JNum 1 then Inr \<lparr> status_code = 200, body = Some example_detail \<rparr>
          else Inr \<lparr> status_code = 404, body = None \<rparr>)"

definition env_with :: "json list \<Rightarrow> scraper_env" where
  "env_with topics =
     \<lparr> base_url = ''https://discourse.onlinedegree.iitm.ac.in'',
       session_get = forum_with topics,
       beautiful_soup = fragment_parser,
       str_of = str_of_scalar \<rparr>"

definition example_topics :: "json list" where
  "example_topics =
     [listed_topic 1 ''2025-02-01T07:30:00.000Z'',
      listed_topic 2 ''2024-12-31T23:59:59.000Z'',
      listed_topic 3 ''2025-03-05T12:00:00.000Z'']"

definition example_post :: post_data where
  "example_post =
     \<lparr> p_id = JNum 1,
       p_title = JStr ''Project deadline'',
       p_url = ''https://discourse.onlinedegree.iitm.ac.in/t/1'',
       p_content = ''When is the ?'',
       p_created_at = JStr ''2020-01-01T08:00:00.000Z'',
       p_author = JStr ''asha'',
       p_replies =
         [\<lparr> r_content = ''one'', r_author = JStr ''ben'', r_created_at = JStr ''2025-02-01T09:00:00.000Z'' \<rparr>,
          \<lparr> r_content = ''two'', r_author = JStr ''chen'', r_created_at = JStr ''2025-02-01T10:00:00.000Z'' \<rparr>,
          \<lparr> r_content = ''three'', r_author = JStr ''dev'', r_created_at = JStr ''2025-02-02T10:00:00.000Z'' \<rparr>,
          \<lparr> r_content = ''four'', r_author = JStr ''eli'', r_created_at = JStr ''2025-02-03T10:00:00.000Z'' \<rparr>] \<rparr>"

text \<open>
  A listed topic with the given id whose \<open>created_at\<close> day lies between the two dates; and
  a post that traces back to one: some listing page of the category, answered with status
  200, lists such a topic with the post's id.
\<close>

definition topic_in_range :: "date \<Rightarrow> date \<Rightarrow> json \<Rightarrow> json \<Rightarrow> bool" where
  "topic_in_range start_dt end_dt i t =
     (\<exists>d. json_index t ''id'' = Inr i \<and> topic_created_at t = Inr d
          \<and> date_le start_dt d \<and> date_le d end_dt)"

definition listed_in_range :: "scraper_env \<Rightarrow> int \<Rightarrow> date \<Rightarrow> date \<Rightarrow> post_data \<Rightarrow> bool" where
  "listed_in_range env category_id start_dt end_dt p =
     (\<exists>n page r data ts t.
        session_get env n (ListingPage category_id page) = Inr r \<and> status_code r = 200
        \<and> body r = Some data \<and> listing_topics data = Inr (JArr ts) \<and> t \<in> set ts
        \<and> topic_in_range start_dt end_dt (p_id p) t)"



text \<open>
  The states in which a scrape evaluates the test of its \<^verbatim>\<open>while\<close> loop: the page number,
  the posts collected and the requests made so far. The first is page 0 with nothing
  collected; the next follows a page that was answered with status 200 and a non-empty list
  of topics, all of which the topic loop went through without raising.
\<close>

inductive pages_reach ::
  "scraper_env \<Rightarrow> date \<Rightarrow> date \<Rightarrow> int \<Rightarrow> nat \<Rightarrow> post_data list \<Rightarrow> request list \<Rightarrow> bool"
  for env :: scraper_env and start_dt :: date and end_dt :: date and category_id :: int where
  start: "pages_reach env start_dt end_dt category_id 0 [] []"
| next_page:
    "pages_reach env start_dt end_dt category_id page posts log \<Longrightarrow> page < 10 \<Longrightarrow>
     session_get env (length log) (ListingPage category_id page) = Inr r \<Longrightarrow>
     status_code r = 200 \<Longrightarrow> body r = Some data \<Longrightarrow>
     listing_topics data = Inr (JArr ts) \<Longrightarrow> ts \<noteq> [] \<Longrightarrow>
     topics_loop env start_dt end_dt ts posts (log @ [ListingPage category_id page]) = (Inr posts1, log2) \<Longrightarrow>
     pages_reach env start_dt end_dt category_id (page + 1) posts1 log2"


declare pages_loop.simps [simp del]

section \<open>Properties of the service\<close>

lemma search_course_filter:
  "\<forall>i \<in> set items. map_of i ''content'' \<noteq> None \<Longrightarrow>
   search_course ql items acc = Inr (acc @ filter (course_match ql) items)"
  by (induction items arbitrary: acc)
     (auto simp: course_match_def item_index_def item_get_def)

lemma search_discourse_filter:
  "\<forall>i \<in> set items. map_of i ''content'' \<noteq> None \<Longrightarrow>
   search_discourse ql items acc = Inr (acc @ filter (discourse_match ql) items)"
  by (induction items arbitrary: acc)
     (auto simp: discourse_match_def item_index_def item_get_def)

lemma static_course_has_content:
  "\<forall>i \<in> set (course_content TDS_KNOWLEDGE_BASE). map_of i ''content'' \<noteq> None"
  by (simp add: TDS_KNOWLEDGE_BASE_def)

lemma static_discourse_has_content:
  "\<forall>i \<in> set (discourse_posts TDS_KNOWLEDGE_BASE). map_of i ''content'' \<noteq> None"
  by (simp add: TDS_KNOWLEDGE_BASE_def)

lemma search_knowledge_base_filter:
  "search_knowledge_base q =
     Inr (filter (course_match (lower q)) (course_content TDS_KNOWLEDGE_BASE)
          @ filter (discourse_match (lower q)) (discourse_posts TDS_KNOWLEDGE_BASE))"
  by (simp add: search_knowledge_base_def search_kb_def Let_def
      search_course_filter [OF static_course_has_content]
      search_discourse_filter [OF static_discourse_has_content])

lemma static_course_content_keywords:
  "\<forall>i \<in> set (course_content TDS_KNOWLEDGE_BASE).
     any_keyword_in course_keywords (lower (item_get i ''content'' []))"
  by code_simp

lemma collect_links_filter:
  "collect_links items found =
     found @ map link_of (filter (\<lambda>i. map_of i ''url'' \<noteq> None) items)"
  by (induction items arbitrary: found)
     (auto simp: link_of_def item_get_def split: option.splits)

lemma get_relevant_links_length:
  "1 \<le> length (get_relevant_links items) \<and> length (get_relevant_links items) \<le> 3"
  by (cases "collect_links items []") (simp_all add: get_relevant_links_def Let_def)

lemma fallback_answer_nonempty: "fallback_answer items \<noteq> []"
  by (cases items) (simp_all add: fallback_answer_def apology_def)


text \<open>
  C9: whenever the lower-cased question contains one of the six course keywords, the search
  returns all three course items of the static knowledge base, followed by whatever discourse
  items matched; every course item's content contains a content-side keyword.
\<close>

theorem search_returns_all_course_items:
  "any_keyword_in course_keywords (lower q) \<Longrightarrow>
   (\<exists>ds. search_knowledge_base q = Inr (course_content TDS_KNOWLEDGE_BASE @ ds))
   \<and> length (course_content TDS_KNOWLEDGE_BASE) = 3
   \<and> (\<forall>i \<in> set (course_content TDS_KNOWLEDGE_BASE).
         any_keyword_in course_keywords (lower (item_get i ''content'' [])))"
proof -
  assume qk: "any_keyword_in course_keywords (lower q)"
  have "\<forall>i \<in> set (course_content TDS_KNOWLEDGE_BASE). course_match (lower q) i"
    using qk static_course_content_keywords by (simp add: course_match_def)
  then have "filter (course_match (lower q)) (course_content TDS_KNOWLEDGE_BASE)
             = course_content TDS_KNOWLEDGE_BASE"
    by (simp add: filter_id_conv)
  then have "\<exists>ds. search_knowledge_base q = Inr (course_content TDS_KNOWLEDGE_BASE @ ds)"
    by (simp add: search_knowledge_base_filter)
  moreover have "length (course_content TDS_KNOWLEDGE_BASE) = 3"
    by (simp add: TDS_KNOWLEDGE_BASE_def)
  ultimately show ?thesis
    using static_course_content_keywords by blast
qed

theorem search_returns_all_course_items_witness:
  "any_keyword_in course_keywords (lower ''Is FastAPI needed?'')
   \<and> (\<exists>ds. search_knowledge_base ''Is FastAPI needed?''
              = Inr (course_content TDS_KNOWLEDGE_BASE @ ds))"
proof -
  have h: "any_keyword_in course_keywords (lower ''Is FastAPI needed?'')"
    by code_simp
  show ?thesis
    using h search_returns_all_course_items [OF h] by simp
qed

text \<open>
  C7: two calls in sequence on the static store give the same answer and leave the store as
  it was; the answer lists the matching course items first and the matching discourse items
  after them, each group in the order of its collection.
\<close>

theorem search_twice_same_ordered_result:
  "search_knowledge_base_call TDS_KNOWLEDGE_BASE q = (r1, s1) \<Longrightarrow>
   search_knowledge_base_call s1 q = (r2, s2) \<Longrightarrow>
   r2 = r1 \<and> s2 = TDS_KNOWLEDGE_BASE \<and> r1 = search_knowledge_base q
   \<and> r1 = Inr (filter (course_match (lower q)) (course_content TDS_KNOWLEDGE_BASE)
              @ filter (discourse_match (lower q)) (discourse_posts TDS_KNOWLEDGE_BASE))"
  using search_knowledge_base_filter [of q]
  by (auto simp: search_knowledge_base_call_def search_knowledge_base_def)

theorem search_twice_same_ordered_result_witness:
  "search_knowledge_base_call TDS_KNOWLEDGE_BASE ''Which model should I use for the API assignment?''
     = (Inr (course_content TDS_KNOWLEDGE_BASE @ [hd (discourse_posts TDS_KNOWLEDGE_BASE)]),
        TDS_KNOWLEDGE_BASE)
   \<and> Inr (course_content TDS_KNOWLEDGE_BASE @ [hd (discourse_posts TDS_KNOWLEDGE_BASE)])
     = search_knowledge_base ''Which model should I use for the API assignment?''"
proof -
  have h: "search_knowledge_base_call TDS_KNOWLEDGE_BASE
             ''Which model should I use for the API assignment?''
           = (Inr (course_content TDS_KNOWLEDGE_BASE @ [hd (discourse_posts TDS_KNOWLEDGE_BASE)]),
              TDS_KNOWLEDGE_BASE)"
    by code_simp
  show ?thesis
    using h search_twice_same_ordered_result [OF h h] by blast
qed

text \<open>
  C5: the link list has at most three entries; it is the single default link when no item
  has a \<open>url\<close> key, and otherwise one link per item with a \<open>url\<close> key, in order, cut to
  three, whose text is the item's title when it has one and else the first 100 characters of
  its content.
\<close>

theorem get_relevant_links_spec:
  "length (get_relevant_links items) \<le> 3
   \<and> ((\<forall>i \<in> set items. map_of i ''url'' = None) \<longrightarrow>
        get_relevant_links items = [default_link])
   \<and> ((\<exists>i \<in> set items. map_of i ''url'' \<noteq> None) \<longrightarrow>
        get_relevant_links items
          = take 3 (map link_of (filter (\<lambda>i. map_of i ''url'' \<noteq> None) items)))
   \<and> (\<forall>i. link_text (link_of i)
            = (case map_of i ''title'' of
                 Some t \<Rightarrow> t
               | None \<Rightarrow> take 100 (item_get i ''content'' [])))"
proof -
  have a: "length (get_relevant_links items) \<le> 3"
    using get_relevant_links_length by blast
  have b: "(\<forall>i \<in> set items. map_of i ''url'' = None) \<longrightarrow>
           get_relevant_links items = [default_link]"
  proof
    assume "\<forall>i \<in> set items. map_of i ''url'' = None"
    then have "filter (\<lambda>i. map_of i ''url'' \<noteq> None) items = []"
      by (simp add: filter_empty_conv)
    then show "get_relevant_links items = [default_link]"
      by (simp add: get_relevant_links_def collect_links_filter)
  qed
  have c: "(\<exists>i \<in> set items. map_of i ''url'' \<noteq> None) \<longrightarrow>
           get_relevant_links items
             = take 3 (map link_of (filter (\<lambda>i. map_of i ''url'' \<noteq> None) items))"
  proof
    assume "\<exists>i \<in> set items. map_of i ''url'' \<noteq> None"
    then have "filter (\<lambda>i. map_of i ''url'' \<noteq> None) items \<noteq> []"
      by (simp add: filter_empty_conv)
    then show "get_relevant_links items
                 = take 3 (map link_of (filter (\<lambda>i. map_of i ''url'' \<noteq> None) items))"
      by (simp add: get_relevant_links_def collect_links_filter Let_def)
  qed
  have d: "\<forall>i. link_text (link_of i)
            = (case map_of i ''title'' of
                 Some t \<Rightarrow> t
               | None \<Rightarrow> take 100 (item_get i ''content'' []))"
    by (simp add: link_of_def item_get_def split: option.splits)
  from a b c d show ?thesis by blast
qed

theorem get_relevant_links_spec_witness:
  "get_relevant_links (course_content TDS_KNOWLEDGE_BASE) = [default_link]
   \<and> get_relevant_links (discourse_posts TDS_KNOWLEDGE_BASE)
       = take 3 (map link_of (discourse_posts TDS_KNOWLEDGE_BASE))
   \<and> length (get_relevant_links (discourse_posts TDS_KNOWLEDGE_BASE)) = 2"
proof -
  have n: "\<forall>i \<in> set (course_content TDS_KNOWLEDGE_BASE). map_of i ''url'' = None"
    by (simp add: TDS_KNOWLEDGE_BASE_def)
  have u: "\<exists>i \<in> set (discourse_posts TDS_KNOWLEDGE_BASE). map_of i ''url'' \<noteq> None"
    by (simp add: TDS_KNOWLEDGE_BASE_def)
  have f: "filter (\<lambda>i. map_of i ''url'' \<noteq> None) (discourse_posts TDS_KNOWLEDGE_BASE)
           = discourse_posts TDS_KNOWLEDGE_BASE"
    by (simp add: TDS_KNOWLEDGE_BASE_def)
  have l: "length (discourse_posts TDS_KNOWLEDGE_BASE) = 2"
    by (simp add: TDS_KNOWLEDGE_BASE_def)
  show ?thesis
    using n u f l
      get_relevant_links_spec [of "course_content TDS_KNOWLEDGE_BASE"]
      get_relevant_links_spec [of "discourse_posts TDS_KNOWLEDGE_BASE"]
    by simp
qed

text \<open>
  C4: when the call to the external model raises, \<open>generate_answer\<close> still returns a string
  and raises nothing: the fixed apology for an empty item list, and otherwise the template
  around the content of the first item; the string is never empty.
\<close>

theorem generate_answer_fallback:
  "llm (build_prompt q (context_of items) d) = Inl e \<Longrightarrow>
   (\<exists>s. generate_answer llm q items d = Inr s \<and> s \<noteq> []
        \<and> (items = [] \<longrightarrow> s = apology)
        \<and> (\<forall>i rest. items = i # rest \<longrightarrow>
              s = ''Based on course materials: ''
                  @ item_get i ''content''
                      ''Please refer to course materials for detailed information.''))"
proof -
  assume f: "llm (build_prompt q (context_of items) d) = Inl e"
  then have "generate_answer llm q items d = Inr (fallback_answer items)"
    by (simp add: generate_answer_def model_answer_def)
  moreover have "items = [] \<longrightarrow> fallback_answer items = apology"
    by (simp add: fallback_answer_def)
  moreover have "\<forall>i rest. items = i # rest \<longrightarrow>
      fallback_answer items
        = ''Based on course materials: ''
          @ item_get i ''content'' ''Please refer to course materials for detailed information.''"
    by (simp add: fallback_answer_def)
  ultimately show ?thesis
    using fallback_answer_nonempty [of items] by blast
qed

theorem generate_answer_fallback_witness:
  "generate_answer failing_model ''Which model?'' (discourse_posts TDS_KNOWLEDGE_BASE) None
     = Inr (''Based on course materials: ''
            @ item_get (hd (discourse_posts TDS_KNOWLEDGE_BASE)) ''content'' [])
   \<and> generate_answer failing_model ''Which model?'' [] None = Inr apology"
proof -
  have f: "\<And>p. failing_model p = Inl ExternalError"
    by (simp add: failing_model_def)
  have k: "discourse_posts TDS_KNOWLEDGE_BASE
           = hd (discourse_posts TDS_KNOWLEDGE_BASE) # tl (discourse_posts TDS_KNOWLEDGE_BASE)"
    by (simp add: TDS_KNOWLEDGE_BASE_def)
  have c: "item_get (hd (discourse_posts TDS_KNOWLEDGE_BASE)) ''content''
             ''Please refer to course materials for detailed information.''
           = item_get (hd (discourse_posts TDS_KNOWLEDGE_BASE)) ''content'' []"
    by (simp add: TDS_KNOWLEDGE_BASE_def item_get_def)
  show ?thesis
    using generate_answer_fallback [where llm = failing_model and q = "''Which model?''"
          and items = "discourse_posts TDS_KNOWLEDGE_BASE" and d = None, OF f]
      generate_answer_fallback [where llm = failing_model and q = "''Which model?''"
          and items = "[]" and d = None, OF f] k c
    by metis
qed







section \<open>Properties of the scraper\<close>

lemma text_paths_ancestors:
  "(a, t) \<in> set (text_paths anc ns) \<Longrightarrow> set anc \<subseteq> set a"
  by (induction anc ns rule: text_paths.induct) auto

lemma get_text_decompose:
  "set anc \<inter> set names = {} \<Longrightarrow>
   get_text (decompose names ns)
     = concat (map snd (filter (\<lambda>(a, t). set a \<inter> set names = {}) (text_paths anc ns)))"
proof (induction anc ns rule: text_paths.induct)
  case (1 anc)
  then show ?case by simp
next
  case (2 anc t ns)
  then show ?case by simp
next
  case (3 anc t ns)
  then show ?case by simp
next
  case (4 anc tag kids ns)
  show ?case
  proof (cases "tag \<in> set names")
    case True
    have "filter (\<lambda>(a, t). set a \<inter> set names = {}) (text_paths (tag # anc) kids) = []"
      using True text_paths_ancestors [of _ _ "tag # anc" kids]
      by (fastforce simp: filter_empty_conv)
    with True 4 show ?thesis by simp
  next
    case False
    with 4 show ?thesis by simp
  qed
qed

lemma decompose_no_removed:
  "set (element_names (decompose names ns)) \<inter> set names = {}"
  by (induction names ns rule: decompose.induct) auto

lemma collect_replies_map:
  "collect_replies bs posts acc = Inr rs \<Longrightarrow>
   \<exists>new. rs = acc @ new \<and> map Inr new = map (make_reply bs) posts"
proof (induction posts arbitrary: acc)
  case Nil
  then show ?case by simp
next
  case (Cons post rest)
  then obtain r where r: "make_reply bs post = Inr r"
    and rec: "collect_replies bs rest (acc @ [r]) = Inr rs"
    by (auto split: sum.splits)
  from Cons.IH [OF rec] obtain new where "rs = (acc @ [r]) @ new"
    and "map Inr new = map (make_reply bs) rest"
    by blast
  with r show ?case by (intro exI [of _ "r # new"]) simp
qed

lemma scrape_topic_details_log:
  "scrape_topic_details env topic_id log = (res, log') \<Longrightarrow> log' = log @ [TopicDetail topic_id]"
  by (auto simp: scrape_topic_details_def Let_def split: sum.splits if_splits)

lemma scrape_topic_details_id:
  "scrape_topic_details env topic_id log = (Some p, log') \<Longrightarrow> p_id p = topic_id"
  by (auto simp: scrape_topic_details_def topic_post_data_def Let_def
           split: sum.splits if_splits json.splits list.splits)

text \<open>
  C8, as the code has it: for every fragment with a \<open>code\<close>, \<open>pre\<close> or \<open>blockquote\<close>
  element the output leaves the text of that element out entirely: whatever forest the
  parser returns, the output is the trimmed concatenation of those strings yielded by
  \<^verbatim>\<open>get_text()\<close> that lie outside every such element, and no such element is left in
  the document. On \<^verbatim>\<open><p>Use <code>print()</code> now</p>\<close> the output is \<open>Use  now\<close>, with
  the two blanks that stood around the removed element.
\<close>

theorem clean_html_excludes_removed_elements:
  "(truthy v \<and> bs v = Inr soup \<longrightarrow>
      clean_html bs v
        = Inr (strip (concat (map snd
                 (filter (\<lambda>(a, t). set a \<inter> set removed_tags = {}) (text_paths [] soup)))))
      \<and> set (element_names (decompose removed_tags soup)) \<inter> set removed_tags = {})
   \<and> clean_html fragment_parser (JStr ''<p>Use <code>print()</code> now</p>'') = Inr ''Use  now''"
proof (intro conjI impI)
  assume a: "truthy v \<and> bs v = Inr soup"
  have "get_text (decompose removed_tags soup)
          = concat (map snd
              (filter (\<lambda>(a, t). set a \<inter> set removed_tags = {}) (text_paths [] soup)))"
    using get_text_decompose [of "[]" removed_tags soup] by simp
  with a show "clean_html bs v
        = Inr (strip (concat (map snd
                 (filter (\<lambda>(a, t). set a \<inter> set removed_tags = {}) (text_paths [] soup)))))"
    by (simp add: clean_html_def)
next
  show "set (element_names (decompose removed_tags soup)) \<inter> set removed_tags = {}"
    by (rule decompose_no_removed)
next
  show "clean_html fragment_parser (JStr ''<p>Use <code>print()</code> now</p>'') = Inr ''Use  now''"
    by code_simp
qed

theorem clean_html_excludes_removed_elements_witness:
  "parse_fragment ''<p>Use <code>print()</code> now</p>''
     = Some [Element ''p'' [Text ''Use '', Element ''code'' [Text ''print()''], Text '' now'']]
   \<and> clean_html fragment_parser (JStr ''<p>Use <code>print()</code> now</p>'')
     = Inr (strip (''Use '' @ '' now''))"
proof -
  have p: "parse_fragment ''<p>Use <code>print()</code> now</p>''
     = Some [Element ''p'' [Text ''Use '', Element ''code'' [Text ''print()''], Text '' now'']]"
    by code_simp
  have t: "truthy (JStr ''<p>Use <code>print()</code> now</p>'')"
    by simp
  have b: "fragment_parser (JStr ''<p>Use <code>print()</code> now</p>'')
     = Inr [Element ''p'' [Text ''Use '', Element ''code'' [Text ''print()''], Text '' now'']]"
    by (simp add: fragment_parser_def p)
  show ?thesis
    using p t b clean_html_excludes_removed_elements
      [where bs = fragment_parser and v = "JStr ''<p>Use <code>print()</code> now</p>''"
         and soup = "[Element ''p'' [Text ''Use '', Element ''code'' [Text ''print()''], Text '' now'']]"]
    by (simp add: removed_tags_def)
qed

text \<open>
  C8, as stated, fails on its example: the cleaned text of
  \<^verbatim>\<open><p>Use <code>print()</code> now</p>\<close> keeps both blanks around the removed element.
\<close>

theorem clean_html_example_two_blanks:
  "clean_html fragment_parser (JStr ''<p>Use <code>print()</code> now</p>'') = Inr ''Use  now''
   \<and> ''Use  now'' \<noteq> ''Use now''"
  by code_simp

text \<open>
  C6: a record built by \<open>scrape_topic_details\<close> has at most four replies, and they are the
  posts at positions 1 to 4 of the topic's post stream, in order (position 0 is the topic
  body), however many posts the stream has.
\<close>

theorem replies_at_most_four:
  "scrape_topic_details env topic_id log = (Some p, log') \<Longrightarrow>
   \<exists>r data main_post others.
     session_get env (length log) (TopicDetail topic_id) = Inr r \<and> body r = Some data
     \<and> stream_posts data = Inr (JArr (main_post # others))
     \<and> length (p_replies p) \<le> 4
     \<and> length (p_replies p) = min 4 (length others)
     \<and> map Inr (p_replies p) = map (make_reply (beautiful_soup env)) (take 4 others)"
proof -
  assume a: "scrape_topic_details env topic_id log = (Some p, log')"
  then obtain r data where r: "session_get env (length log) (TopicDetail topic_id) = Inr r"
    and d: "body r = Some data"
    and t: "topic_post_data env topic_id data = Inr (Some p)"
    by (auto simp: scrape_topic_details_def response_json_def Let_def
             split: sum.splits if_splits option.splits)
  from t obtain main_post others rs where s: "stream_posts data = Inr (JArr (main_post # others))"
    and c: "collect_replies (beautiful_soup env) (take 4 others) [] = Inr rs"
    and e: "p_replies p = rs"
    by (auto simp: topic_post_data_def split: sum.splits if_splits json.splits list.splits)
  from collect_replies_map [OF c] have m: "map Inr rs = map (make_reply (beautiful_soup env)) (take 4 others)"
    by simp
  then have "length rs = length (take 4 others)"
    by (metis length_map)
  with r d s e m show ?thesis by auto
qed

theorem replies_at_most_four_witness:
  "scrape_topic_details (env_with example_topics) (JNum 1) [] = (Some example_post, [TopicDetail (JNum 1)])
   \<and> length (p_replies example_post) = 4
   \<and> map r_author (p_replies example_post) = [JStr ''ben'', JStr ''chen'', JStr ''dev'', JStr ''eli'']"
proof -
  have h: "scrape_topic_details (env_with example_topics) (JNum 1) []
           = (Some example_post, [TopicDetail (JNum 1)])"
    by code_simp
  have l: "length (p_replies example_post) = 4"
    by (simp add: example_post_def)
  have m: "map r_author (p_replies example_post) = [JStr ''ben'', JStr ''chen'', JStr ''dev'', JStr ''eli'']"
    by (simp add: example_post_def)
  show ?thesis
    using h l m replies_at_most_four [OF h] by blast
qed

lemma is_listing_simps:
  "is_listing (ListingPage c n)" "\<not> is_listing (TopicDetail i)"
  by (simp_all add: is_listing_def)

lemma topics_loop_bad_date:
  "topic_created_at t = Inl err \<Longrightarrow> topics_loop env s e (t # ts) posts log = (Inl err, log)"
  by simp

lemma topics_loop_out_of_range:
  "topic_created_at t = Inr d \<Longrightarrow> \<not> (date_le s d \<and> date_le d e) \<Longrightarrow>
   topics_loop env s e (t # ts) posts log = topics_loop env s e ts posts log"
  by (cases "date_le s d") simp_all

lemma topics_loop_bad_id:
  "topic_created_at t = Inr d \<Longrightarrow> date_le s d \<and> date_le d e \<Longrightarrow> json_index t ''id'' = Inl err \<Longrightarrow>
   topics_loop env s e (t # ts) posts log = (Inl err, log)"
  by simp

lemma topics_loop_skip:
  "topic_created_at t = Inr d \<Longrightarrow> date_le s d \<and> date_le d e \<Longrightarrow> json_index t ''id'' = Inr i \<Longrightarrow>
   scrape_topic_details env i log = (None, log1) \<Longrightarrow>
   topics_loop env s e (t # ts) posts log = topics_loop env s e ts posts log1"
  by simp

lemma topics_loop_append:
  "topic_created_at t = Inr d \<Longrightarrow> date_le s d \<and> date_le d e \<Longrightarrow> json_index t ''id'' = Inr i \<Longrightarrow>
   scrape_topic_details env i log = (Some post, log1) \<Longrightarrow>
   topics_loop env s e (t # ts) posts log = topics_loop env s e ts (posts @ [post]) log1"
  by simp

lemma topics_loop_log:
  "topics_loop env s e ts posts log = (res, log') \<Longrightarrow>
   filter is_listing log' = filter is_listing log"
proof (induction ts arbitrary: posts log)
  case Nil
  then show ?case by simp
next
  case (Cons t ts)
  show ?case
  proof (cases "topic_created_at t")
    case (Inl err)
    from Cons.prems show ?thesis
      unfolding topics_loop_bad_date [OF Inl] by simp
  next
    case (Inr d)
    note date = this
    show ?thesis
    proof (cases "date_le s d \<and> date_le d e")
      case False
      from Cons.prems have "topics_loop env s e ts posts log = (res, log')"
        unfolding topics_loop_out_of_range [OF date False] .
      from Cons.IH [OF this] show ?thesis .
    next
      case True
      note range = this
      show ?thesis
      proof (cases "json_index t ''id''")
        case (Inl err)
        from Cons.prems show ?thesis
          unfolding topics_loop_bad_id [OF date range Inl] by simp
      next
        case (Inr i)
        note ident = this
        obtain r log1 where sd: "scrape_topic_details env i log = (r, log1)"
          by (cases "scrape_topic_details env i log")
        have l1: "filter is_listing log1 = filter is_listing log"
          using scrape_topic_details_log [OF sd] by (simp add: is_listing_simps)
        show ?thesis
        proof (cases r)
          case None
          from Cons.prems have "topics_loop env s e ts posts log1 = (res, log')"
            unfolding topics_loop_skip [OF date range ident sd [unfolded None]] .
          from Cons.IH [OF this] l1 show ?thesis by simp
        next
          case (Some post)
          from Cons.prems have "topics_loop env s e ts (posts @ [post]) log1 = (res, log')"
            unfolding topics_loop_append [OF date range ident sd [unfolded Some]] .
          from Cons.IH [OF this] l1 show ?thesis by simp
        qed
      qed
    qed
  qed
qed

lemma topics_loop_posts:
  "topics_loop env s e ts posts log = (Inr posts', log') \<Longrightarrow>
   \<exists>new. posts' = posts @ new
     \<and> (\<forall>p \<in> set new. \<exists>t \<in> set ts. topic_in_range s e (p_id p) t)"
proof (induction ts arbitrary: posts log)
  case Nil
  then show ?case by simp
next
  case (Cons t ts)
  show ?case
  proof (cases "topic_created_at t")
    case (Inl err)
    from Cons.prems show ?thesis
      unfolding topics_loop_bad_date [OF Inl] by simp
  next
    case (Inr d)
    note date = this
    show ?thesis
    proof (cases "date_le s d \<and> date_le d e")
      case False
      from Cons.prems have "topics_loop env s e ts posts log = (Inr posts', log')"
        unfolding topics_loop_out_of_range [OF date False] .
      from Cons.IH [OF this] obtain new where "posts' = posts @ new"
        and "\<forall>p \<in> set new. \<exists>t \<in> set ts. topic_in_range s e (p_id p) t"
        by blast
      then show ?thesis
        by (intro exI [of _ new]) simp
    next
      case True
      note range = this
      show ?thesis
      proof (cases "json_index t ''id''")
        case (Inl err)
        from Cons.prems show ?thesis
          unfolding topics_loop_bad_id [OF date range Inl] by simp
      next
        case (Inr i)
        note ident = this
        obtain r log1 where sd: "scrape_topic_details env i log = (r, log1)"
          by (cases "scrape_topic_details env i log")
        show ?thesis
        proof (cases r)
          case None
          from Cons.prems have "topics_loop env s e ts posts log1 = (Inr posts', log')"
            unfolding topics_loop_skip [OF date range ident sd [unfolded None]] .
          from Cons.IH [OF this] obtain new where "posts' = posts @ new"
            and "\<forall>p \<in> set new. \<exists>t \<in> set ts. topic_in_range s e (p_id p) t"
            by blast
          then show ?thesis
            by (intro exI [of _ new]) simp
        next
          case (Some post)
          from Cons.prems have "topics_loop env s e ts (posts @ [post]) log1 = (Inr posts', log')"
            unfolding topics_loop_append [OF date range ident sd [unfolded Some]] .
          from Cons.IH [OF this] obtain new where n: "posts' = (posts @ [post]) @ new"
            and m: "\<forall>p \<in> set new. \<exists>t \<in> set ts. topic_in_range s e (p_id p) t"
            by blast
          have "p_id post = i"
            using sd Some scrape_topic_details_id by blast
          then have "topic_in_range s e (p_id post) t"
            using ident date range by (simp add: topic_in_range_def)
          with n m show ?thesis
            by (intro exI [of _ "post # new"]) simp
        qed
      qed
    qed
  qed
qed


lemma pages_loop_unfold:
  "page < 10 \<Longrightarrow>
   pages_loop env s e cat page posts log =
     (case session_get env (length log) (ListingPage cat page) of
        Inl err \<Rightarrow> (Inl err, log @ [ListingPage cat page])
      | Inr r \<Rightarrow>
          if status_code r \<noteq> 200 then (Inr posts, log @ [ListingPage cat page])
          else
            (case response_json r of
               Inl err \<Rightarrow> (Inl err, log @ [ListingPage cat page])
             | Inr data \<Rightarrow>
                 (case listing_topics data of
                    Inl err \<Rightarrow> (Inl err, log @ [ListingPage cat page])
                  | Inr topics \<Rightarrow>
                      if \<not> truthy topics then (Inr posts, log @ [ListingPage cat page])
                      else
                        (case topics of
                           JArr ts \<Rightarrow>
                             (case topics_loop env s e ts posts (log @ [ListingPage cat page]) of
                                (Inl err, log2) \<Rightarrow> (Inl err, log2)
                              | (Inr posts1, log2) \<Rightarrow>
                                  pages_loop env s e cat (page + 1) posts1 log2)
                         | _ \<Rightarrow> (Inl TypeError, log @ [ListingPage cat page])))))"
  by (subst pages_loop.simps) (simp add: Let_def)

lemma pages_loop_stop:
  "\<not> page < 10 \<Longrightarrow> pages_loop env s e cat page posts log = (Inr posts, log)"
  by (subst pages_loop.simps) simp

lemma pages_loop_iter:
  assumes lt: "page < 10"
    and run: "pages_loop env s e cat page posts log = (res, log')"
  shows "(filter is_listing log' = filter is_listing log @ [ListingPage cat page]
            \<and> (\<forall>ps. res = Inr ps \<longrightarrow> ps = posts))
         \<or> (\<exists>r data ts posts1 log2.
               session_get env (length log) (ListingPage cat page) = Inr r
               \<and> status_code r = 200 \<and> body r = Some data
               \<and> listing_topics data = Inr (JArr ts)
               \<and> topics_loop env s e ts posts (log @ [ListingPage cat page]) = (Inr posts1, log2)
               \<and> pages_loop env s e cat (page + 1) posts1 log2 = (res, log'))"
proof -
  let ?log1 = "log @ [ListingPage cat page]"
  have f1: "filter is_listing ?log1 = filter is_listing log @ [ListingPage cat page]"
    by (simp add: is_listing_simps)
  note u = run [unfolded pages_loop_unfold [OF lt]]
  show ?thesis
  proof (cases "session_get env (length log) (ListingPage cat page)")
    case (Inl err)
    with u have "res = Inl err" "log' = ?log1" by simp_all
    with f1 show ?thesis by simp
  next
    case (Inr r)
    note get = this
    show ?thesis
    proof (cases "status_code r = 200")
      case False
      with u get have "res = Inr posts" "log' = ?log1" by simp_all
      with f1 show ?thesis by simp
    next
      case True
      note ok = this
      show ?thesis
      proof (cases "body r")
        case None
        with u get ok have "res = Inl ValueError" "log' = ?log1"
          by (simp_all add: response_json_def)
        with f1 show ?thesis by simp
      next
        case (Some data)
        note bd = this
        then have rj: "response_json r = Inr data"
          by (simp add: response_json_def)
        show ?thesis
        proof (cases "listing_topics data")
          case (Inl err)
          with u get ok rj have "res = Inl err" "log' = ?log1" by simp_all
          with f1 show ?thesis by simp
        next
          case (Inr topics)
          note tops = this
          show ?thesis
          proof (cases "truthy topics")
            case False
            with u get ok rj tops have "res = Inr posts" "log' = ?log1" by simp_all
            with f1 show ?thesis by simp
          next
            case True
            note tr = this
            show ?thesis
            proof (cases "\<exists>ts. topics = JArr ts")
              case False
              with u get ok rj tops tr have "res = Inl TypeError \<and> log' = ?log1"
                by (cases topics) simp_all
              with f1 show ?thesis by simp
            next
              case True
              then obtain ts where ts: "topics = JArr ts" by blast
              obtain tres log2 where tl: "topics_loop env s e ts posts ?log1 = (tres, log2)"
                by (cases "topics_loop env s e ts posts ?log1")
              have f2: "filter is_listing log2 = filter is_listing ?log1"
                using topics_loop_log [OF tl] .
              show ?thesis
              proof (cases tres)
                case (Inl err)
                with u get ok rj tops tr ts tl have "res = Inl err" "log' = log2" by simp_all
                with f1 f2 show ?thesis by simp
              next
                case (Inr posts1)
                with u get ok rj tops tr ts tl
                have "pages_loop env s e cat (page + 1) posts1 log2 = (res, log')"
                  by simp
                with get ok bd tops ts tl Inr show ?thesis by blast
              qed
            qed
          qed
        qed
      qed
    qed
  qed
qed


lemma pages_loop_result:
  "pages_loop env s e cat page posts log = (res, log') \<Longrightarrow> page \<le> 10 \<Longrightarrow>
   (\<exists>k. page \<le> k \<and> k \<le> 10
        \<and> filter is_listing log' = filter is_listing log @ map (ListingPage cat) [page..<k])
   \<and> (\<forall>posts'. res = Inr posts' \<longrightarrow>
         (\<exists>new. posts' = posts @ new \<and> (\<forall>p \<in> set new. listed_in_range env cat s e p)))"
proof (induction "10 - page" arbitrary: page posts log)
  case 0
  then have "\<not> page < 10" by simp
  from "0.prems"(1) [unfolded pages_loop_stop [OF this]]
  have r: "res = Inr posts" and l: "log' = log" by simp_all
  have "page \<le> page \<and> page \<le> 10
        \<and> filter is_listing log' = filter is_listing log @ map (ListingPage cat) [page..<page]"
    using l "0.prems"(2) by simp
  then have a: "\<exists>k. page \<le> k \<and> k \<le> 10
        \<and> filter is_listing log' = filter is_listing log @ map (ListingPage cat) [page..<k]"
    by blast
  have b: "\<forall>posts'. res = Inr posts' \<longrightarrow>
         (\<exists>new. posts' = posts @ new \<and> (\<forall>p \<in> set new. listed_in_range env cat s e p))"
    using r by simp
  from a b show ?case by blast
next
  case (Suc n)
  then have lt: "page < 10" by simp
  from pages_loop_iter [OF lt Suc.prems(1)] show ?case
  proof
    assume t: "filter is_listing log' = filter is_listing log @ [ListingPage cat page]
               \<and> (\<forall>ps. res = Inr ps \<longrightarrow> ps = posts)"
    have "page \<le> Suc page \<and> Suc page \<le> 10
          \<and> filter is_listing log' = filter is_listing log @ map (ListingPage cat) [page..<Suc page]"
      using t lt by simp
    then have a: "\<exists>k. page \<le> k \<and> k \<le> 10
        \<and> filter is_listing log' = filter is_listing log @ map (ListingPage cat) [page..<k]"
      by blast
    have b: "\<forall>posts'. res = Inr posts' \<longrightarrow>
         (\<exists>new. posts' = posts @ new \<and> (\<forall>p \<in> set new. listed_in_range env cat s e p))"
      using t by simp
    from a b show ?case by blast
  next
    assume "\<exists>r data ts posts1 log2.
               session_get env (length log) (ListingPage cat page) = Inr r
               \<and> status_code r = 200 \<and> body r = Some data
               \<and> listing_topics data = Inr (JArr ts)
               \<and> topics_loop env s e ts posts (log @ [ListingPage cat page]) = (Inr posts1, log2)
               \<and> pages_loop env s e cat (page + 1) posts1 log2 = (res, log')"
    then obtain r data ts posts1 log2
      where get: "session_get env (length log) (ListingPage cat page) = Inr r"
        and ok: "status_code r = 200" and bd: "body r = Some data"
        and tops: "listing_topics data = Inr (JArr ts)"
        and tl: "topics_loop env s e ts posts (log @ [ListingPage cat page]) = (Inr posts1, log2)"
        and rec: "pages_loop env s e cat (page + 1) posts1 log2 = (res, log')"
      by blast
    have n: "n = 10 - (page + 1)" using Suc.hyps(2) by simp
    have le: "page + 1 \<le> 10" using lt by simp
    from Suc.hyps(1) [OF n rec le]
    obtain k where k1: "page + 1 \<le> k" and k2: "k \<le> 10"
      and kl: "filter is_listing log' = filter is_listing log2 @ map (ListingPage cat) [page + 1..<k]"
      and ih: "\<forall>posts'. res = Inr posts' \<longrightarrow>
         (\<exists>new. posts' = posts1 @ new \<and> (\<forall>p \<in> set new. listed_in_range env cat s e p))"
      by blast
    have f2: "filter is_listing log2 = filter is_listing log @ [ListingPage cat page]"
      using topics_loop_log [OF tl] by (simp add: is_listing_simps)
    have up: "[page..<k] = page # [page + 1..<k]"
      using k1 by (simp add: upt_conv_Cons)
    have "page \<le> k \<and> k \<le> 10
          \<and> filter is_listing log' = filter is_listing log @ map (ListingPage cat) [page..<k]"
      using k1 k2 kl f2 up by simp
    then have a: "\<exists>k. page \<le> k \<and> k \<le> 10
        \<and> filter is_listing log' = filter is_listing log @ map (ListingPage cat) [page..<k]"
      by blast
    from topics_loop_posts [OF tl] obtain new1 where p1: "posts1 = posts @ new1"
      and m1: "\<forall>p \<in> set new1. \<exists>t \<in> set ts. topic_in_range s e (p_id p) t"
      by blast
    have l1: "\<forall>p \<in> set new1. listed_in_range env cat s e p"
      unfolding listed_in_range_def using m1 get ok bd tops by blast
    have b: "\<forall>posts'. res = Inr posts' \<longrightarrow>
         (\<exists>new. posts' = posts @ new \<and> (\<forall>p \<in> set new. listed_in_range env cat s e p))"
    proof (intro allI impI)
      fix posts'
      assume "res = Inr posts'"
      with ih obtain new2 where p2: "posts' = posts1 @ new2"
        and l2: "\<forall>p \<in> set new2. listed_in_range env cat s e p"
        by blast
      have "posts' = posts @ (new1 @ new2)" using p1 p2 by simp
      moreover have "\<forall>p \<in> set (new1 @ new2). listed_in_range env cat s e p"
        using l1 l2 by auto
      ultimately show "\<exists>new. posts' = posts @ new \<and> (\<forall>p \<in> set new. listed_in_range env cat s e p)"
        by blast
    qed
    from a b show ?case by blast
  qed
qed



text \<open>
  C2, as the code has it: the scrape asks for at most ten listing pages, the pages 0, 1, ...
  in order, and every record it returns was fetched for a listed topic whose own
  \<open>created_at\<close> day lies in the inclusive range. The \<open>created_at\<close> stored in the record
  is copied from the first post of the topic's detail and is not compared with the range.
\<close>

theorem scrape_filters_on_listing_date:
  "scrape_discourse_posts env start_date end_date category_id [] = (posts, log) \<Longrightarrow>
   (\<exists>k. k \<le> 10 \<and> filter is_listing log = map (ListingPage category_id) [0..<k])
   \<and> (\<forall>p \<in> set posts. \<exists>s e.
          strptime_ymd start_date = Inr s \<and> strptime_ymd end_date = Inr e
          \<and> listed_in_range env category_id s e p)"
proof -
  assume run: "scrape_discourse_posts env start_date end_date category_id [] = (posts, log)"
  show ?thesis
  proof (cases "strptime_ymd start_date")
    case (Inl err)
    with run have "posts = []" "log = []"
      by (simp_all add: scrape_discourse_posts_def)
    then have "0 \<le> (10::nat) \<and> filter is_listing log = map (ListingPage category_id) [0..<0]"
      by simp
    then have "\<exists>k. k \<le> 10 \<and> filter is_listing log = map (ListingPage category_id) [0..<k]"
      by blast
    with \<open>posts = []\<close> show ?thesis by simp
  next
    case (Inr s)
    note sd = this
    show ?thesis
    proof (cases "strptime_ymd end_date")
      case (Inl err)
      with run sd have "posts = []" "log = []"
        by (simp_all add: scrape_discourse_posts_def)
      then have "0 \<le> (10::nat) \<and> filter is_listing log = map (ListingPage category_id) [0..<0]"
        by simp
      then have "\<exists>k. k \<le> 10 \<and> filter is_listing log = map (ListingPage category_id) [0..<k]"
        by blast
      with \<open>posts = []\<close> show ?thesis by simp
    next
      case (Inr e)
      note ed = this
      obtain res log' where pl: "pages_loop env s e category_id 0 [] [] = (res, log')"
        by (cases "pages_loop env s e category_id 0 [] []")
      from pages_loop_result [OF pl] obtain k where k: "k \<le> 10"
        and kl: "filter is_listing log' = map (ListingPage category_id) [0..<k]"
        and ps: "\<forall>posts'. res = Inr posts' \<longrightarrow>
                   (\<exists>new. posts' = new \<and> (\<forall>p \<in> set new. listed_in_range env category_id s e p))"
        by auto
      have lg: "log = log'"
        using run sd ed pl by (cases res) (simp_all add: scrape_discourse_posts_def)
      have a: "\<exists>k. k \<le> 10 \<and> filter is_listing log = map (ListingPage category_id) [0..<k]"
        using k kl lg by blast
      have b: "\<forall>p \<in> set posts. listed_in_range env category_id s e p"
      proof (cases res)
        case (Inl err)
        with run sd ed pl have "posts = []"
          by (simp add: scrape_discourse_posts_def)
        then show ?thesis by simp
      next
        case (Inr posts')
        with run sd ed pl have "posts = posts'"
          by (simp add: scrape_discourse_posts_def)
        with ps Inr show ?thesis by simp
      qed
      from a b sd ed show ?thesis by simp
    qed
  qed
qed

theorem scrape_filters_on_listing_date_witness:
  "scrape_discourse_posts (env_with example_topics) ''2025-01-01'' ''2025-04-14'' 123 []
     = ([example_post],
        [ListingPage 123 0, TopicDetail (JNum 1), TopicDetail (JNum 3), ListingPage 123 1])
   \<and> (\<exists>k. k \<le> 10
          \<and> filter is_listing
               [ListingPage 123 0, TopicDetail (JNum 1), TopicDetail (JNum 3), ListingPage 123 1]
             = map (ListingPage 123) [0..<k])"
proof -
  have h: "scrape_discourse_posts (env_with example_topics) ''2025-01-01'' ''2025-04-14'' 123 []
     = ([example_post],
        [ListingPage 123 0, TopicDetail (JNum 1), TopicDetail (JNum 3), ListingPage 123 1])"
    by code_simp
  show ?thesis
    using h scrape_filters_on_listing_date [OF h] by blast
qed

text \<open>
  C2, as stated, fails on the date of the record: topic 1 is listed with the day 2025-02-01,
  inside the range, and the record scraped for it carries the \<open>created_at\<close> of its first
  post, a day in 2020, before the start of the range.
\<close>

theorem scraped_post_dated_before_start:
  "map p_created_at
     (fst (scrape_discourse_posts (env_with example_topics) ''2025-01-01'' ''2025-04-14'' 123 []))
     = [JStr ''2020-01-01T08:00:00.000Z'']
   \<and> strptime_ymd ''2025-01-01'' = Inr (2025, 1, 1)
   \<and> strptime_ymd (take 10 ''2020-01-01T08:00:00.000Z'') = Inr (2020, 1, 1)
   \<and> \<not> date_le (2025, 1, 1) (2020, 1, 1)"
  by code_simp






















end
